theory Spec2Isabelle
  imports Main "HOL-Library.AList"
begin

unbundle bit_operations_syntax

section \<open>The BioStudies tool server: data model\<close>

text \<open>
  The server (\<^verbatim>\<open>server.py\<close>) has one helper, \<^verbatim>\<open>_make_api_request\<close>, and three tools,
  \<^verbatim>\<open>get_study\<close>, \<^verbatim>\<open>search_studies\<close> and \<^verbatim>\<open>get_study_info\<close>.

  A Python \<^verbatim>\<open>str\<close> is a \<^typ>\<open>string\<close>. The string operations of the tools (splitting at
  the ASCII characters \<^verbatim>\<open>&\<close> and \<^verbatim>\<open>=\<close>, a prefix test against an ASCII literal,
  concatenation) give the same result on a sequence of code points and on its UTF-8 bytes,
  so either reading of \<^typ>\<open>char\<close> fits. The one place where code points matter is the JSON
  encoder, which escapes every character outside the printable ASCII range: the strings
  inside a JSON value are therefore lists of code points (\<^typ>\<open>nat list\<close>).

  A Python \<^verbatim>\<open>dict\<close> keeps its keys in insertion order: it is an association list with
  distinct keys. \<^verbatim>\<open>d[k] = v\<close> is \<^const>\<open>AList.update\<close> (an existing key keeps its
  place, a new key goes to the end), removing a key is \<^const>\<open>AList.delete\<close>, and a lookup is
  \<^const>\<open>map_of\<close>.
\<close>

type_synonym dict = "(string \<times> string) list"

text \<open>
  An exception is an instance of a subclass of \<^verbatim>\<open>Exception\<close>: the name of its class and the
  text that \<^verbatim>\<open>str(e)\<close> gives. These are the exceptions that the calls of the program raise
  (\<^verbatim>\<open>requests.get\<close>, \<^verbatim>\<open>response.json()\<close>, unpacking a list). Signals of the interpreter
  that are no \<^verbatim>\<open>Exception\<close> (\<^verbatim>\<open>KeyboardInterrupt\<close>, \<^verbatim>\<open>SystemExit\<close>) are not values of this
  type.
\<close>

datatype exception = Exception (cls: string) (str: string)

text \<open>
  A value as \<^verbatim>\<open>response.json()\<close> returns it. A \<^verbatim>\<open>float\<close> is carried as the text that the
  encoder's \<^verbatim>\<open>floatstr\<close> gives for it (floating point itself is outside this development).
\<close>

datatype json_value =
    JNull
  | JBool bool
  | JInt int
  | JFloat string
  | JStr "nat list"
  | JList "json_value list"
  | JDict "(nat list \<times> json_value) list"

text \<open>
  The response object of \<^verbatim>\<open>requests\<close>: its \<^verbatim>\<open>status_code\<close>, its \<^verbatim>\<open>text\<close> and the outcome
  of calling its \<^verbatim>\<open>json()\<close> method, which parses the body or raises.
\<close>

record response =
  status_code :: int
  body_text :: string
  json :: "exception + json_value"

text \<open>
  The world around the program: the network and the interpreter. A request is the URL and the
  \<^verbatim>\<open>params\<close> argument given to \<^verbatim>\<open>requests.get\<close>. The remote side is any function from the
  request to an outcome (an exception raised by the transport, or a response); \<open>sent\<close>
  records the requests made so far, oldest first. \<open>encoder_depth\<close> is the deepest nesting of
  lists and dicts that \<^verbatim>\<open>json.dumps\<close> can walk in this interpreter before the recursion limit
  stops it: the pure Python encoder that an indent selects takes one frame for each level.
\<close>

type_synonym request = "string \<times> dict option"

record world =
  respond :: "request \<Rightarrow> exception + response"
  sent :: "request list"
  encoder_depth :: nat

definition requests_get :: "string \<Rightarrow> dict option \<Rightarrow> world \<Rightarrow> (exception + response) \<times> world" where
  "requests_get url params n = (respond n (url, params), n\<lparr>sent := sent n @ [(url, params)]\<rparr>)"


section \<open>Library functions\<close>

subsection \<open>Strings\<close>

text \<open>
  \<^verbatim>\<open>s.split(sep)\<close> for a separator of one character: find the next separator, cut the
  piece before it, go on behind it. The empty string gives one empty piece.
\<close>

function py_split :: "char \<Rightarrow> string \<Rightarrow> string list" where
  "py_split sep s =
     (case dropWhile (\<lambda>c. c \<noteq> sep) s of
        [] \<Rightarrow> [s]
      | _ # rest \<Rightarrow> takeWhile (\<lambda>c. c \<noteq> sep) s # py_split sep rest)"
  by pat_completeness auto
termination
proof (relation "measure (\<lambda>(sep, s). length s)")
  show "wf (measure (\<lambda>(sep, s). length s))" by simp
next
  fix sep :: char and s x rest
  assume "dropWhile (\<lambda>c. c \<noteq> sep) s = x # rest"
  then have "length rest < length (dropWhile (\<lambda>c. c \<noteq> sep) s)" by simp
  also have "\<dots> \<le> length s" by (rule length_dropWhile_le)
  finally show "((sep, rest), (sep, s)) \<in> measure (\<lambda>(sep, s). length s)" by simp
qed

declare py_split.simps [simp del]

text \<open>\<^verbatim>\<open>s.split(sep, 1)\<close>: at most one cut, at the first separator.\<close>

definition py_split1 :: "char \<Rightarrow> string \<Rightarrow> string list" where
  "py_split1 sep s =
     (case dropWhile (\<lambda>c. c \<noteq> sep) s of
        [] \<Rightarrow> [s]
      | _ # rest \<Rightarrow> [takeWhile (\<lambda>c. c \<noteq> sep) s, rest])"

text \<open>\<^verbatim>\<open>s.startswith(p)\<close>.\<close>

definition startswith :: "string \<Rightarrow> string \<Rightarrow> bool" where
  "startswith s p = (take (length p) s = p)"

text \<open>\<^verbatim>\<open>sep.join(xs)\<close>.\<close>

fun py_join :: "string \<Rightarrow> string list \<Rightarrow> string" where
  "py_join sep [] = []"
| "py_join sep [x] = x"
| "py_join sep (x # y # ys) = x @ sep @ py_join sep (y # ys)"

text \<open>The decimal text of an \<^verbatim>\<open>int\<close>, as \<^verbatim>\<open>str\<close>, \<^verbatim>\<open>repr\<close> and an f-string give it.\<close>

fun str_nat :: "nat \<Rightarrow> string" where
  "str_nat n =
     (if n < 10 then [''0123456789'' ! n]
      else str_nat (n div 10) @ [''0123456789'' ! (n mod 10)])"

declare str_nat.simps [simp del]

definition str_int :: "int \<Rightarrow> string" where
  "str_int i = (if i < 0 then CHR ''-'' # str_nat (nat (- i)) else str_nat (nat i))"

subsection \<open>The JSON encoder\<close>

text \<open>
  \<^verbatim>\<open>json.dumps(o, indent=2)\<close> of the standard library, for a value that a JSON parser
  returned. With an indent, the encoder separates items by \<^verbatim>\<open>","\<close> and a line break, keys
  from values by \<^verbatim>\<open>": "\<close>, and writes an empty list or dict as \<^verbatim>\<open>[]\<close> or \<^verbatim>\<open>{}\<close>.
  Strings are written by \<^verbatim>\<open>py_encode_basestring_ascii\<close>: the backslash, the double quote
  and every character outside \<^verbatim>\<open>' '..'~'\<close> are replaced by an escape.
\<close>

fun hex_nat :: "nat \<Rightarrow> string" where
  "hex_nat n =
     (if n < 16 then [''0123456789abcdef'' ! n]
      else hex_nat (n div 16) @ [''0123456789abcdef'' ! (n mod 16)])"

declare hex_nat.simps [simp del]

text \<open>The format \<^verbatim>\<open>'\\u{0:04x}'\<close>.\<close>

definition u_escape :: "nat \<Rightarrow> string" where
  "u_escape n =
     [CHR 0x5C, CHR ''u''] @ replicate (4 - length (hex_nat n)) CHR ''0'' @ hex_nat n"

definition escape_replace :: "nat \<Rightarrow> string" where
  "escape_replace n =
     (if n = 0x5C then [CHR 0x5C, CHR 0x5C]
      else if n = 0x22 then [CHR 0x5C, CHR 0x22]
      else if n = 0x08 then [CHR 0x5C, CHR ''b'']
      else if n = 0x0C then [CHR 0x5C, CHR ''f'']
      else if n = 0x0A then [CHR 0x5C, CHR ''n'']
      else if n = 0x0D then [CHR 0x5C, CHR ''r'']
      else if n = 0x09 then [CHR 0x5C, CHR ''t'']
      else if n < 0x10000 then u_escape n
      else
        (let m = n - 0x10000;
             s1 = 0xD800 OR (drop_bit 10 m AND 0x3FF);
             s2 = 0xDC00 OR (m AND 0x3FF)
         in u_escape s1 @ u_escape s2))"

definition py_encode_basestring_ascii :: "nat list \<Rightarrow> string" where
  "py_encode_basestring_ascii s =
     [CHR 0x22]
     @ concat (map (\<lambda>n. if n = 0x5C \<or> n = 0x22 \<or> n < 0x20 \<or> 0x7E < n
                          then escape_replace n else [char_of n]) s)
     @ [CHR 0x22]"

text \<open>
  \<open>iterencode indent level o\<close>: the text of \<open>o\<close> at nesting depth \<open>level\<close>, with \<open>indent\<close>
  spaces for each level.
\<close>

fun iterencode :: "nat \<Rightarrow> nat \<Rightarrow> json_value \<Rightarrow> string"
  and iterencode_list :: "nat \<Rightarrow> nat \<Rightarrow> json_value list \<Rightarrow> string list"
  and iterencode_dict :: "nat \<Rightarrow> nat \<Rightarrow> (nat list \<times> json_value) list \<Rightarrow> string list"
where
  "iterencode indent level JNull = ''null''"
| "iterencode indent level (JBool b) = (if b then ''true'' else ''false'')"
| "iterencode indent level (JInt i) = str_int i"
| "iterencode indent level (JFloat f) = f"
| "iterencode indent level (JStr s) = py_encode_basestring_ascii s"
| "iterencode indent level (JList lst) =
     (if lst = [] then ''[]''
      else
        (let newline_indent = CHR 0x0A # replicate (indent * (level + 1)) CHR '' ''
         in ''['' @ newline_indent
            @ py_join ('','' @ newline_indent) (iterencode_list indent (level + 1) lst)
            @ CHR 0x0A # replicate (indent * level) CHR '' '' @ '']''))"
| "iterencode indent level (JDict dct) =
     (if dct = [] then ''{}''
      else
        (let newline_indent = CHR 0x0A # replicate (indent * (level + 1)) CHR '' ''
         in ''{'' @ newline_indent
            @ py_join ('','' @ newline_indent) (iterencode_dict indent (level + 1) dct)
            @ CHR 0x0A # replicate (indent * level) CHR '' '' @ ''}''))"
| "iterencode_list indent level [] = []"
| "iterencode_list indent level (v # vs) =
     iterencode indent level v # iterencode_list indent level vs"
| "iterencode_dict indent level [] = []"
| "iterencode_dict indent level ((key, v) # items) =
     (py_encode_basestring_ascii key @ '': '' @ iterencode indent level v)
     # iterencode_dict indent level items"

text \<open>The nesting of lists and dicts in a value: none for a scalar, one for \<^verbatim>\<open>[]\<close>.\<close>

fun nesting :: "json_value \<Rightarrow> nat"
  and nesting_list :: "json_value list \<Rightarrow> nat"
  and nesting_dict :: "(nat list \<times> json_value) list \<Rightarrow> nat"
where
  "nesting JNull = 0"
| "nesting (JBool b) = 0"
| "nesting (JInt i) = 0"
| "nesting (JFloat f) = 0"
| "nesting (JStr s) = 0"
| "nesting (JList lst) = Suc (nesting_list lst)"
| "nesting (JDict dct) = Suc (nesting_dict dct)"
| "nesting_list [] = 0"
| "nesting_list (v # vs) = max (nesting v) (nesting_list vs)"
| "nesting_dict [] = 0"
| "nesting_dict ((key, v) # items) = max (nesting v) (nesting_dict items)"

text \<open>
  \<^verbatim>\<open>json.dumps(obj, indent=indent)\<close> in an interpreter whose encoder walks \<open>depth\<close> levels: a
  value nested deeper raises \<^verbatim>\<open>RecursionError\<close>, any other value gives its text.
\<close>

definition json_dumps :: "json_value \<Rightarrow> nat \<Rightarrow> nat \<Rightarrow> exception + string" where
  "json_dumps obj indent depth =
     (if depth < nesting obj
      then Inl (Exception ''RecursionError'' ''maximum recursion depth exceeded'')
      else Inr (iterencode indent 0 obj))"


section \<open>The request executor\<close>

text \<open>
  \<^verbatim>\<open>_make_api_request(url, params)\<close>: one \<^verbatim>\<open>requests.get\<close>, then the three outcomes.
  Everything runs inside \<^verbatim>\<open>try ... except Exception as e\<close>, so an exception of
  \<^verbatim>\<open>requests.get\<close>, one of \<^verbatim>\<open>response.json()\<close> and one of \<^verbatim>\<open>json.dumps\<close> all end in the
  handler.
\<close>

definition make_api_request :: "string \<Rightarrow> dict option \<Rightarrow> world \<Rightarrow> string \<times> world" where
  "make_api_request url params n =
     (case requests_get url params n of
        (Inl e, n') \<Rightarrow> (''Error: An exception occurred during request: '' @ str e, n')
      | (Inr response, n') \<Rightarrow>
          (if status_code response = 200 then
             (case json response of
                Inl e \<Rightarrow> (''Error: An exception occurred during request: '' @ str e, n')
              | Inr obj \<Rightarrow>
                  (case json_dumps obj 2 (encoder_depth n') of
                     Inl e \<Rightarrow> (''Error: An exception occurred during request: '' @ str e, n')
                   | Inr text \<Rightarrow> (text, n')))
           else
             (''Error: Request failed with status code '' @ str_int (status_code response)
              @ ''. Response: '' @ body_text response, n')))"


section \<open>The tools\<close>

definition api_v1 :: string where
  "api_v1 = ''https://www.ebi.ac.uk/biostudies/api/v1''"

definition get_study :: "string \<Rightarrow> world \<Rightarrow> string \<times> world" where
  "get_study accession n =
     (let url = api_v1 @ ''/studies/'' @ accession
      in make_api_request url None n)"

definition get_study_info :: "string \<Rightarrow> world \<Rightarrow> string \<times> world" where
  "get_study_info accession n =
     (let url = api_v1 @ ''/studies/'' @ accession @ ''/info''
      in make_api_request url None n)"

text \<open>
  The parsing loop of \<^verbatim>\<open>search_studies\<close>. The assignment
  \<^verbatim>\<open>key, value = pair.split('=', 1)\<close> unpacks a list of exactly two elements and raises
  \<^verbatim>\<open>ValueError\<close> on any other.
\<close>

fun parse_pairs :: "string list \<Rightarrow> dict \<Rightarrow> exception + dict" where
  "parse_pairs [] param_dict = Inr param_dict"
| "parse_pairs (pair # param_pairs) param_dict =
     (if CHR ''='' \<in> set pair then
        (case py_split1 CHR ''='' pair of
           [key, value] \<Rightarrow> parse_pairs param_pairs (AList.update key value param_dict)
         | _ \<Rightarrow> Inl (Exception ''ValueError'' ''not enough values to unpack (expected 2, got 1)''))
      else parse_pairs param_pairs param_dict)"

text \<open>
  \<^verbatim>\<open>if params:\<close> holds for a string that is not empty; \<^verbatim>\<open>None\<close> and \<^verbatim>\<open>""\<close> leave the
  dict empty.
\<close>

definition parse_params :: "string option \<Rightarrow> exception + dict" where
  "parse_params params =
     (case params of
        None \<Rightarrow> Inr []
      | Some s \<Rightarrow> (if s \<noteq> [] then parse_pairs (py_split CHR ''&'' s) [] else Inr []))"

text \<open>
  The rest of \<^verbatim>\<open>search_studies\<close> up to the call of the executor: the URL and the dict it
  is called with.
\<close>

definition search_request :: "string option \<Rightarrow> exception + (string \<times> dict)" where
  "search_request params =
     (case parse_params params of
        Inl e \<Rightarrow> Inl e
      | Inr param_dict0 \<Rightarrow>
          (let collection = map_of param_dict0 ''collection'';
               param_dict1 = AList.delete ''collection'' param_dict0;
               base_url =
                 (case collection of
                    None \<Rightarrow> api_v1 @ ''/search''
                  | Some c \<Rightarrow> (if c \<noteq> [] then api_v1 @ ''/'' @ c @ ''/search''
                               else api_v1 @ ''/search''));
               param_dict2 = filter (\<lambda>(k, v). \<not> startswith k ''facet.'') param_dict1;
               param_dict3 = (if ''page'' \<notin> fst ` set param_dict2
                              then AList.update ''page'' ''1'' param_dict2 else param_dict2);
               param_dict4 = (if ''pageSize'' \<notin> fst ` set param_dict3
                              then AList.update ''pageSize'' ''20'' param_dict3 else param_dict3);
               param_dict5 = (if ''sortOrder'' \<notin> fst ` set param_dict4
                              then AList.update ''sortOrder'' ''descending'' param_dict4
                              else param_dict4)
           in Inr (base_url, param_dict5)))"

definition search_studies :: "string option \<Rightarrow> world \<Rightarrow> (exception + string) \<times> world" where
  "search_studies params n =
     (case search_request params of
        Inl e \<Rightarrow> (Inl e, n)
      | Inr (base_url, param_dict) \<Rightarrow>
          (case make_api_request base_url (Some param_dict) n of
             (result, n') \<Rightarrow> (Inr result, n')))"


section \<open>Auxiliary notions for the proofs\<close>

text \<open>
  The two parts of a pair that holds a \<^verbatim>\<open>=\<close>, and one round of the parsing loop.
\<close>

definition pair_key :: "string \<Rightarrow> string" where
  "pair_key pair = takeWhile (\<lambda>c. c \<noteq> CHR ''='') pair"

definition pair_value :: "string \<Rightarrow> string" where
  "pair_value pair = tl (dropWhile (\<lambda>c. c \<noteq> CHR ''='') pair)"

definition store_pair :: "string \<Rightarrow> dict \<Rightarrow> dict" where
  "store_pair pair d =
     (if CHR ''='' \<in> set pair then AList.update (pair_key pair) (pair_value pair) d else d)"


section \<open>Splitting a string\<close>

lemma py_split_unfold_Nil:
  "dropWhile (\<lambda>c. c \<noteq> sep) s = [] \<Longrightarrow> py_split sep s = [s]"
  by (subst py_split.simps) (simp only: list.case)

lemma py_split_unfold_Cons:
  "dropWhile (\<lambda>c. c \<noteq> sep) s = x # rest \<Longrightarrow>
     py_split sep s = takeWhile (\<lambda>c. c \<noteq> sep) s # py_split sep rest"
  by (subst py_split.simps) (simp only: list.case)

lemma py_split_Cons:
  "py_split sep (c # cs) =
     (if c = sep then [] # py_split sep cs
      else (c # hd (py_split sep cs)) # tl (py_split sep cs))"
proof (cases "c = sep")
  case True
  then have "dropWhile (\<lambda>c. c \<noteq> sep) (c # cs) = c # cs" by simp
  from py_split_unfold_Cons [OF this] True show ?thesis by simp
next
  case False
  show ?thesis
  proof (cases "dropWhile (\<lambda>c. c \<noteq> sep) cs")
    case Nil
    with False have "dropWhile (\<lambda>c. c \<noteq> sep) (c # cs) = []" by simp
    from py_split_unfold_Nil [OF this] py_split_unfold_Nil [OF Nil] False
    show ?thesis by simp
  next
    case (Cons x rest)
    with False have "dropWhile (\<lambda>c. c \<noteq> sep) (c # cs) = x # rest" by simp
    from py_split_unfold_Cons [OF this] py_split_unfold_Cons [OF Cons] False
    show ?thesis by simp
  qed
qed

lemma py_split_Nil: "py_split sep [] = [[]]"
  by (subst py_split.simps) simp

lemma py_split_not_empty: "py_split sep s \<noteq> []"
  by (induction s) (simp_all add: py_split_Nil py_split_Cons)

lemma py_split_pieces: "\<forall>p \<in> set (py_split sep s). sep \<notin> set p"
proof (induction s)
  case Nil
  then show ?case by (simp add: py_split_Nil)
next
  case (Cons c cs)
  obtain p ps where ps: "py_split sep cs = p # ps"
    using py_split_not_empty [of sep cs] by (cases "py_split sep cs") auto
  with Cons show ?case by (auto simp: py_split_Cons)
qed

lemma py_join_split: "py_join [sep] (py_split sep s) = s"
proof (induction s)
  case Nil
  then show ?case by (simp add: py_split_Nil)
next
  case (Cons c cs)
  obtain p ps where ps: "py_split sep cs = p # ps"
    using py_split_not_empty [of sep cs] by (cases "py_split sep cs") auto
  with Cons show ?case by (cases ps) (auto simp: py_split_Cons)
qed

section \<open>Parsing the parameter string\<close>

lemma dropWhile_eq_Cons: "CHR ''='' \<in> set p \<Longrightarrow> dropWhile (\<lambda>c. c \<noteq> CHR ''='') p = CHR ''='' # pair_value p"
  unfolding pair_value_def
  by (induction p) auto

lemma py_split1_pair:
  "CHR ''='' \<in> set p \<Longrightarrow> py_split1 CHR ''='' p = [pair_key p, pair_value p]"
  by (simp add: py_split1_def dropWhile_eq_Cons pair_key_def)

lemma pair_decomp:
  assumes "CHR ''='' \<in> set p"
  shows "p = pair_key p @ CHR ''='' # pair_value p" and "CHR ''='' \<notin> set (pair_key p)"
proof -
  have "p = takeWhile (\<lambda>c. c \<noteq> CHR ''='') p @ dropWhile (\<lambda>c. c \<noteq> CHR ''='') p"
    by simp
  then show "p = pair_key p @ CHR ''='' # pair_value p"
    using dropWhile_eq_Cons [OF assms] by (simp add: pair_key_def)
  show "CHR ''='' \<notin> set (pair_key p)"
    unfolding pair_key_def by (auto dest: set_takeWhileD)
qed

lemma pair_of_parts:
  assumes "CHR ''='' \<notin> set k"
  shows "pair_key (k @ CHR ''='' # v) = k" and "pair_value (k @ CHR ''='' # v) = v"
    and "CHR ''='' \<in> set (k @ CHR ''='' # v)"
  using assms by (induction k) (auto simp: pair_key_def pair_value_def)

lemma startswith_append: "startswith (p @ rest) p"
  by (simp add: startswith_def)

lemma startswith_iff: "startswith s p \<longleftrightarrow> (\<exists>rest. s = p @ rest)"
  unfolding startswith_def
  by (metis append_eq_conv_conj append_take_drop_id)

lemma startswith_key:
  assumes "CHR ''='' \<notin> set k"
  shows "startswith p (k @ ''='') \<longleftrightarrow> CHR ''='' \<in> set p \<and> pair_key p = k"
proof
  assume "startswith p (k @ ''='')"
  then obtain v where "p = k @ CHR ''='' # v"
    by (auto simp: startswith_iff)
  then show "CHR ''='' \<in> set p \<and> pair_key p = k"
    using pair_of_parts [OF assms] by simp
next
  assume h: "CHR ''='' \<in> set p \<and> pair_key p = k"
  then have "p = k @ ''='' @ pair_value p"
    using pair_decomp(1) [of p] by simp
  then show "startswith p (k @ ''='')"
    by (metis append.assoc startswith_append)
qed

lemma parse_pairs_fold: "parse_pairs ps d = Inr (fold store_pair ps d)"
  by (induction ps arbitrary: d) (simp_all add: py_split1_pair store_pair_def)

lemma map_of_store_pair:
  "map_of (store_pair p d) k =
     (if CHR ''='' \<in> set p \<and> pair_key p = k then Some (pair_value p) else map_of d k)"
  by (simp add: store_pair_def update_conv)

lemma map_of_fold_none:
  "\<forall>q \<in> set ps. \<not> (CHR ''='' \<in> set q \<and> pair_key q = k) \<Longrightarrow>
     map_of (fold store_pair ps d) k = map_of d k"
  by (induction ps arbitrary: d) (auto simp: map_of_store_pair)

lemma map_of_fold_last:
  assumes "CHR ''='' \<in> set p"
    and "\<forall>q \<in> set after. \<not> (CHR ''='' \<in> set q \<and> pair_key q = pair_key p)"
  shows "map_of (fold store_pair (before @ p # after) d) (pair_key p) = Some (pair_value p)"
  using assms by (simp add: map_of_fold_none map_of_store_pair)

lemma map_of_fold_Some:
  "map_of (fold store_pair ps []) k = Some v \<Longrightarrow>
     \<exists>before after. ps = before @ (k @ CHR ''='' # v) # after \<and> CHR ''='' \<notin> set k
        \<and> (\<forall>q \<in> set after. \<not> startswith q (k @ ''=''))"
proof (induction ps rule: rev_induct)
  case Nil
  then show ?case by simp
next
  case (snoc p ps)
  show ?case
  proof (cases "CHR ''='' \<in> set p \<and> pair_key p = k")
    case True
    with snoc.prems have "v = pair_value p"
      by (simp add: map_of_store_pair)
    with True have "p = k @ CHR ''='' # v" and "CHR ''='' \<notin> set k"
      using pair_decomp [of p] by auto
    then have "ps @ [p] = ps @ (k @ CHR ''='' # v) # [] \<and> CHR ''='' \<notin> set k
        \<and> (\<forall>q \<in> set []. \<not> startswith q (k @ ''=''))"
      by simp
    then show ?thesis by blast
  next
    case False
    with snoc.prems have "map_of (fold store_pair ps []) k = Some v"
      by (simp add: map_of_store_pair)
    from snoc.IH [OF this] obtain before after where
      ba: "ps = before @ (k @ CHR ''='' # v) # after" "CHR ''='' \<notin> set k"
          "\<forall>q \<in> set after. \<not> startswith q (k @ ''='')"
      by blast
    from False ba(2) have "\<not> startswith p (k @ ''='')"
      by (simp add: startswith_key)
    with ba have "ps @ [p] = before @ (k @ CHR ''='' # v) # (after @ [p]) \<and> CHR ''='' \<notin> set k
        \<and> (\<forall>q \<in> set (after @ [p]). \<not> startswith q (k @ ''=''))"
      by simp
    then show ?thesis by blast
  qed
qed

lemma map_of_fold_iff:
  "map_of (fold store_pair ps []) k = Some v \<longleftrightarrow>
     (\<exists>before after. ps = before @ (k @ CHR ''='' # v) # after \<and> CHR ''='' \<notin> set k
        \<and> (\<forall>q \<in> set after. \<not> startswith q (k @ ''='')))"
proof
  assume "map_of (fold store_pair ps []) k = Some v"
  then show "\<exists>before after. ps = before @ (k @ CHR ''='' # v) # after \<and> CHR ''='' \<notin> set k
        \<and> (\<forall>q \<in> set after. \<not> startswith q (k @ ''=''))"
    by (rule map_of_fold_Some)
next
  assume "\<exists>before after. ps = before @ (k @ CHR ''='' # v) # after \<and> CHR ''='' \<notin> set k
        \<and> (\<forall>q \<in> set after. \<not> startswith q (k @ ''=''))"
  then obtain before after where
    ba: "ps = before @ (k @ CHR ''='' # v) # after" "CHR ''='' \<notin> set k"
        "\<forall>q \<in> set after. \<not> startswith q (k @ ''='')"
    by blast
  let ?p = "k @ CHR ''='' # v"
  have p: "CHR ''='' \<in> set ?p" "pair_key ?p = k" "pair_value ?p = v"
    using pair_of_parts [OF ba(2)] by simp_all
  have "\<forall>q \<in> set after. \<not> (CHR ''='' \<in> set q \<and> pair_key q = pair_key ?p)"
    using ba(3) p(2) startswith_key [OF ba(2)] by simp
  from map_of_fold_last [OF p(1) this] show "map_of (fold store_pair ps []) k = Some v"
    using ba(1) p by simp
qed

lemma distinct_fold_store:
  "distinct (map fst d) \<Longrightarrow> distinct (map fst (fold store_pair ps d))"
  by (induction ps arbitrary: d) (simp_all add: store_pair_def distinct_update)

lemma parse_params_Some:
  "parse_params (Some s) = Inr (fold store_pair (py_split CHR ''&'' s) [])"
  by (simp add: parse_params_def parse_pairs_fold py_split_Nil store_pair_def)

lemma parse_params_total: "\<exists>d. parse_params params = Inr d"
  by (cases params) (simp_all add: parse_params_def parse_pairs_fold)

lemma map_of_filter_key:
  "map_of (filter (\<lambda>(k, v). P k) xs) k = (if P k then map_of xs k else None)"
  by (induction xs) auto

lemma not_in_keys: "k \<notin> fst ` set d \<longleftrightarrow> map_of d k = None"
  by (simp add: map_of_eq_None_iff)

lemma facet_literals:
  "\<not> startswith ''page'' ''facet.''" "\<not> startswith ''pageSize'' ''facet.''"
  "\<not> startswith ''sortOrder'' ''facet.''" "\<not> startswith [] ''facet.''"
  by (simp_all add: startswith_def)

lemma map_of_default:
  "map_of (if key \<notin> fst ` set d then AList.update key v d else d) k =
     (if k = key then (case map_of d key of None \<Rightarrow> Some v | Some w \<Rightarrow> Some w)
      else map_of d k)"
  by (auto simp: not_in_keys update_conv split: option.splits)

lemma map_of_three_defaults:
  "map_of (let d3 = (if ''page'' \<notin> fst ` set d2
                     then AList.update ''page'' ''1'' d2 else d2);
               d4 = (if ''pageSize'' \<notin> fst ` set d3
                     then AList.update ''pageSize'' ''20'' d3 else d3)
           in (if ''sortOrder'' \<notin> fst ` set d4
               then AList.update ''sortOrder'' ''descending'' d4 else d4)) k =
     (case map_of d2 k of
        Some v \<Rightarrow> Some v
      | None \<Rightarrow> map_of [(''page'', ''1''), (''pageSize'', ''20''),
                        (''sortOrder'', ''descending'')] k)"
  unfolding Let_def map_of_default
  by (simp split: option.splits)

lemma map_of_filtered:
  "map_of (filter (\<lambda>(k, v). \<not> startswith k ''facet.'') (AList.delete ''collection'' d0)) k =
     (if k = ''collection'' \<or> startswith k ''facet.'' then None else map_of d0 k)"
  by (simp add: map_of_filter_key delete_conv)

lemma search_request_map:
  assumes "parse_params params = Inr d0"
  shows "\<exists>d. search_request params =
           Inr (case map_of d0 ''collection'' of
                  None \<Rightarrow> api_v1 @ ''/search''
                | Some c \<Rightarrow> (if c \<noteq> [] then api_v1 @ ''/'' @ c @ ''/search''
                             else api_v1 @ ''/search''), d)
         \<and> (\<forall>k. map_of d k =
               (if k = ''collection'' \<or> startswith k ''facet.'' then None
                else case map_of d0 k of
                       Some v \<Rightarrow> Some v
                     | None \<Rightarrow> map_of [(''page'', ''1''), (''pageSize'', ''20''),
                                       (''sortOrder'', ''descending'')] k))"
proof -
  let ?d2 = "filter (\<lambda>(k, v). \<not> startswith k ''facet.'') (AList.delete ''collection'' d0)"
  let ?d = "(let d3 = (if ''page'' \<notin> fst ` set ?d2
                     then AList.update ''page'' ''1'' ?d2 else ?d2);
               d4 = (if ''pageSize'' \<notin> fst ` set d3
                     then AList.update ''pageSize'' ''20'' d3 else d3)
           in (if ''sortOrder'' \<notin> fst ` set d4
               then AList.update ''sortOrder'' ''descending'' d4 else d4))"
  have req: "search_request params =
           Inr (case map_of d0 ''collection'' of
                  None \<Rightarrow> api_v1 @ ''/search''
                | Some c \<Rightarrow> (if c \<noteq> [] then api_v1 @ ''/'' @ c @ ''/search''
                             else api_v1 @ ''/search''), ?d)"
    unfolding search_request_def assms by (simp add: Let_def)
  have "map_of ?d k =
               (if k = ''collection'' \<or> startswith k ''facet.'' then None
                else case map_of d0 k of
                       Some v \<Rightarrow> Some v
                     | None \<Rightarrow> map_of [(''page'', ''1''), (''pageSize'', ''20''),
                                       (''sortOrder'', ''descending'')] k)" for k
    unfolding map_of_three_defaults map_of_filtered
    by (simp add: facet_literals)
  with req show ?thesis by blast
qed


section \<open>The executor and the calls of the tools\<close>

lemma make_api_request_sent:
  "sent (snd (make_api_request url params n)) = sent n @ [(url, params)]"
  by (simp add: make_api_request_def requests_get_def split: sum.splits)

lemma make_api_request_cases:
  "fst (make_api_request url params n) =
     (case respond n (url, params) of
        Inl e \<Rightarrow> ''Error: An exception occurred during request: '' @ str e
      | Inr r \<Rightarrow>
          (if status_code r = 200 then
             (case json r of
                Inl e \<Rightarrow> ''Error: An exception occurred during request: '' @ str e
              | Inr obj \<Rightarrow>
                  (case json_dumps obj 2 (encoder_depth n) of
                     Inl e \<Rightarrow> ''Error: An exception occurred during request: '' @ str e
                   | Inr text \<Rightarrow> text))
           else ''Error: Request failed with status code '' @ str_int (status_code r)
                @ ''. Response: '' @ body_text r))"
  by (simp add: make_api_request_def requests_get_def split: sum.splits)

lemma search_studies_call:
  assumes "search_request params = Inr (url, d)"
  shows "fst (search_studies params n) = Inr (fst (make_api_request url (Some d) n))"
    and "snd (search_studies params n) = snd (make_api_request url (Some d) n)"
  using assms by (simp_all add: search_studies_def split: prod.splits)

lemma search_request_empty:
  assumes "parse_params params = Inr []"
  shows "search_request params =
     Inr (''https://www.ebi.ac.uk/biostudies/api/v1/search'',
          [(''page'', ''1''), (''pageSize'', ''20''), (''sortOrder'', ''descending'')])"
  unfolding search_request_def assms by (simp add: api_v1_def)

lemma fold_store_no_eq:
  "\<forall>p \<in> set ps. CHR ''='' \<notin> set p \<Longrightarrow> fold store_pair ps d = d"
  by (induction ps) (simp_all add: store_pair_def)


lemma search_request_total_map:
  "\<exists>d0 url d. parse_params params = Inr d0 \<and> search_request params = Inr (url, d)
     \<and> (\<forall>k. map_of d k =
               (if k = ''collection'' \<or> startswith k ''facet.'' then None
                else case map_of d0 k of
                       Some v \<Rightarrow> Some v
                     | None \<Rightarrow> map_of [(''page'', ''1''), (''pageSize'', ''20''),
                                       (''sortOrder'', ''descending'')] k))"
proof -
  obtain d0 where d0: "parse_params params = Inr d0"
    using parse_params_total by blast
  from search_request_map [OF d0] d0 show ?thesis by blast
qed

lemma map_of_fold_present:
  assumes "p \<in> set ps" and "CHR ''='' \<in> set p"
  shows "\<exists>v. map_of (fold store_pair ps d) (pair_key p) = Some v"
proof -
  from assms have "\<exists>q \<in> set ps. CHR ''='' \<in> set q \<and> pair_key q = pair_key p"
    by blast
  then obtain before q after where
    q: "ps = before @ q # after" "CHR ''='' \<in> set q \<and> pair_key q = pair_key p"
       "\<forall>z \<in> set after. \<not> (CHR ''='' \<in> set z \<and> pair_key z = pair_key p)"
    using split_list_last_prop [of ps "\<lambda>q. CHR ''='' \<in> set q \<and> pair_key q = pair_key p"]
    by blast
  then have "map_of (fold store_pair (before @ q # after) d) (pair_key q) = Some (pair_value q)"
    by (intro map_of_fold_last) simp_all
  with q show ?thesis by simp
qed


lemma collection_key: "CHR ''='' \<notin> set ''collection''"
  by simp


section \<open>The decimal text of a number\<close>








section \<open>The outcomes of the executor\<close>


lemma make_api_request_raised:
  assumes "respond n (url, params) = Inl e"
  shows "fst (make_api_request url params n) =
     ''Error: An exception occurred during request: '' @ str e"
  using assms by (simp add: make_api_request_cases)

lemma make_api_request_bad_json:
  assumes "respond n (url, params) = Inr r" and "status_code r = 200" and "json r = Inl e"
  shows "fst (make_api_request url params n) =
     ''Error: An exception occurred during request: '' @ str e"
  using assms by (simp add: make_api_request_cases)

lemma get_study_eq:
  "get_study a n =
     make_api_request (''https://www.ebi.ac.uk/biostudies/api/v1/studies/'' @ a) None n"
  by (simp add: get_study_def api_v1_def)

lemma get_study_info_eq:
  "get_study_info a n =
     make_api_request (''https://www.ebi.ac.uk/biostudies/api/v1/studies/'' @ a @ ''/info'') None n"
  by (simp add: get_study_info_def api_v1_def)



section \<open>The claims\<close>

text \<open>
  C9. For every accession \<open>a\<close>, used as it is, \<^verbatim>\<open>get_study(a)\<close> is the executor's result for
  the URL \<^verbatim>\<open>{base}/studies/{a}\<close> with no parameters (\<^verbatim>\<open>params=None\<close>), and the one request it
  adds to those sent is that URL with no parameters; \<^verbatim>\<open>get_study_info(a)\<close> does the same for
  \<^verbatim>\<open>{base}/studies/{a}/info\<close>.
\<close>

theorem C9_study_requests:
  "get_study a n =
     make_api_request (''https://www.ebi.ac.uk/biostudies/api/v1/studies/'' @ a) None n
   \<and> sent (snd (get_study a n)) =
     sent n @ [(''https://www.ebi.ac.uk/biostudies/api/v1/studies/'' @ a, None)]
   \<and> get_study_info a n =
     make_api_request (''https://www.ebi.ac.uk/biostudies/api/v1/studies/'' @ a @ ''/info'') None n
   \<and> sent (snd (get_study_info a n)) =
     sent n @ [(''https://www.ebi.ac.uk/biostudies/api/v1/studies/'' @ a @ ''/info'', None)]"
  by (simp add: get_study_def get_study_info_def api_v1_def make_api_request_sent)

text \<open>
  C2. With the empty string, and with \<^verbatim>\<open>None\<close>, \<^verbatim>\<open>search_studies\<close> calls the executor with
  the global search URL and exactly the dict \<^verbatim>\<open>{page: "1", pageSize: "20", sortOrder:
  "descending"}\<close>, and that is the one request it sends. The same holds for every string none
  of whose pairs holds a \<^verbatim>\<open>=\<close>, since such a string gives an empty set of parameters.
\<close>

theorem C2_defaults:
  "search_request (Some []) =
     Inr (''https://www.ebi.ac.uk/biostudies/api/v1/search'',
          [(''page'', ''1''), (''pageSize'', ''20''), (''sortOrder'', ''descending'')])
   \<and> search_request None =
     Inr (''https://www.ebi.ac.uk/biostudies/api/v1/search'',
          [(''page'', ''1''), (''pageSize'', ''20''), (''sortOrder'', ''descending'')])
   \<and> sent (snd (search_studies (Some []) n)) =
     sent n @ [(''https://www.ebi.ac.uk/biostudies/api/v1/search'',
                Some [(''page'', ''1''), (''pageSize'', ''20''), (''sortOrder'', ''descending'')])]
   \<and> sent (snd (search_studies None n)) =
     sent n @ [(''https://www.ebi.ac.uk/biostudies/api/v1/search'',
                Some [(''page'', ''1''), (''pageSize'', ''20''), (''sortOrder'', ''descending'')])]
   \<and> ((\<forall>p \<in> set (py_split CHR ''&'' s). CHR ''='' \<notin> set p) \<longrightarrow>
        search_request (Some s) =
          Inr (''https://www.ebi.ac.uk/biostudies/api/v1/search'',
               [(''page'', ''1''), (''pageSize'', ''20''), (''sortOrder'', ''descending'')]))"
proof -
  have e: "parse_params (Some []) = Inr []" and n: "parse_params None = Inr []"
    by (simp_all add: parse_params_def)
  have s: "parse_params (Some s) = Inr []"
    if "\<forall>p \<in> set (py_split CHR ''&'' s). CHR ''='' \<notin> set p"
    using that by (simp add: parse_params_Some fold_store_no_eq)
  show ?thesis
    using search_request_empty [OF e] search_request_empty [OF n] search_request_empty [OF s]
    by (simp add: search_studies_call make_api_request_sent)
qed

text \<open>The last part of C2 at the string \<^verbatim>\<open>badpair&&x\<close>, whose three pairs hold no \<^verbatim>\<open>=\<close>.\<close>

theorem C2_defaults_witness:
  "search_request (Some ''badpair&&x'') =
     Inr (''https://www.ebi.ac.uk/biostudies/api/v1/search'',
          [(''page'', ''1''), (''pageSize'', ''20''), (''sortOrder'', ''descending'')])"
proof -
  have "py_split CHR ''&'' ''badpair&&x'' = [''badpair'', [], ''x'']"
    by code_simp
  then have "\<forall>p \<in> set (py_split CHR ''&'' ''badpair&&x''). CHR ''='' \<notin> set p"
    by simp
  with C2_defaults [where s = "''badpair&&x''"] show ?thesis by blast
qed

text \<open>
  C4. Whatever the parameter string, and wherever a pair stands in it, the dict that
  \<^verbatim>\<open>search_studies\<close> gives to the executor, which is the dict of the one request it sends,
  has no key that starts with \<^verbatim>\<open>facet.\<close> (a test that distinguishes upper and lower case).
\<close>

theorem C4_no_facet_key:
  "\<exists>url d. search_request params = Inr (url, d)
     \<and> sent (snd (search_studies params n)) = sent n @ [(url, Some d)]
     \<and> (\<forall>k \<in> fst ` set d. \<not> startswith k ''facet.'')"
proof -
  obtain d0 url d where
    r: "search_request params = Inr (url, d)"
    and m: "\<And>k. map_of d k =
               (if k = ''collection'' \<or> startswith k ''facet.'' then None
                else case map_of d0 k of
                       Some v \<Rightarrow> Some v
                     | None \<Rightarrow> map_of [(''page'', ''1''), (''pageSize'', ''20''),
                                       (''sortOrder'', ''descending'')] k)"
    using search_request_total_map [of params] by blast
  have "\<not> startswith k ''facet.''" if "k \<in> fst ` set d" for k
  proof
    assume "startswith k ''facet.''"
    then have "map_of d k = None" by (simp add: m)
    with that show False by (simp add: not_in_keys [symmetric])
  qed
  with r show ?thesis
    by (simp add: search_studies_call make_api_request_sent)
qed

text \<open>
  C4 at a string with two facet pairs: the key \<^verbatim>\<open>query\<close> is in the final dict and does not
  start with \<^verbatim>\<open>facet.\<close>; the key \<^verbatim>\<open>facet.organism\<close> is not in it.
\<close>

theorem C4_no_facet_key_witness:
  "\<exists>url d. search_request (Some ''facet.organism=human&query=x&facet.a='') = Inr (url, d)
     \<and> ''query'' \<in> fst ` set d \<and> \<not> startswith ''query'' ''facet.''
     \<and> ''facet.organism'' \<notin> fst ` set d"
proof -
  obtain url d where
    r: "search_request (Some ''facet.organism=human&query=x&facet.a='') = Inr (url, d)"
    and f: "\<forall>k \<in> fst ` set d. \<not> startswith k ''facet.''"
    using C4_no_facet_key [of "Some ''facet.organism=human&query=x&facet.a=''"] by blast
  have "search_request (Some ''facet.organism=human&query=x&facet.a='') =
      Inr (''https://www.ebi.ac.uk/biostudies/api/v1/search'',
           [(''query'', ''x''), (''page'', ''1''), (''pageSize'', ''20''),
            (''sortOrder'', ''descending'')])"
    by code_simp
  with r have q: "''query'' \<in> fst ` set d" by auto
  have "startswith ''facet.organism'' ''facet.''" by (simp add: startswith_def)
  with f have "''facet.organism'' \<notin> fst ` set d" by blast
  with r q f show ?thesis by blast
qed

text \<open>
  C3. When the parsed dict holds \<^verbatim>\<open>page\<close>, \<^verbatim>\<open>pageSize\<close> or \<^verbatim>\<open>sortOrder\<close>, the final dict
  holds the same value for that key, whatever the value is (the empty string too); the
  default \<^verbatim>\<open>"1"\<close>, \<^verbatim>\<open>"20"\<close> or \<^verbatim>\<open>"descending"\<close> is the value only when the parsed dict
  lacks the key.
\<close>

theorem C3_present_values_kept:
  assumes "parse_params params = Inr d0"
  shows "\<exists>url d. search_request params = Inr (url, d)
     \<and> map_of d ''page'' = (case map_of d0 ''page'' of Some v \<Rightarrow> Some v | None \<Rightarrow> Some ''1'')
     \<and> map_of d ''pageSize'' =
         (case map_of d0 ''pageSize'' of Some v \<Rightarrow> Some v | None \<Rightarrow> Some ''20'')
     \<and> map_of d ''sortOrder'' =
         (case map_of d0 ''sortOrder'' of Some v \<Rightarrow> Some v | None \<Rightarrow> Some ''descending'')"
proof -
  from search_request_map [OF assms] obtain d where
    r: "search_request params =
           Inr (case map_of d0 ''collection'' of
                  None \<Rightarrow> api_v1 @ ''/search''
                | Some c \<Rightarrow> (if c \<noteq> [] then api_v1 @ ''/'' @ c @ ''/search''
                             else api_v1 @ ''/search''), d)"
    and m: "\<And>k. map_of d k =
               (if k = ''collection'' \<or> startswith k ''facet.'' then None
                else case map_of d0 k of
                       Some v \<Rightarrow> Some v
                     | None \<Rightarrow> map_of [(''page'', ''1''), (''pageSize'', ''20''),
                                       (''sortOrder'', ''descending'')] k)"
    by blast
  have "map_of d ''page'' = (case map_of d0 ''page'' of Some v \<Rightarrow> Some v | None \<Rightarrow> Some ''1'')"
    by (simp add: m facet_literals split: option.splits)
  moreover have "map_of d ''pageSize'' =
         (case map_of d0 ''pageSize'' of Some v \<Rightarrow> Some v | None \<Rightarrow> Some ''20'')"
    by (simp add: m facet_literals split: option.splits)
  moreover have "map_of d ''sortOrder'' =
         (case map_of d0 ''sortOrder'' of Some v \<Rightarrow> Some v | None \<Rightarrow> Some ''descending'')"
    by (simp add: m facet_literals split: option.splits)
  ultimately show ?thesis using r by blast
qed

text \<open>
  C3 at a string that gives all three keys, \<^verbatim>\<open>page\<close> with the empty value and
  \<^verbatim>\<open>sortOrder\<close> twice.
\<close>

theorem C3_present_values_kept_witness:
  "parse_params (Some ''page=&sortOrder=ascending&pageSize=50&sortOrder=a=b'') =
     Inr [(''page'', []), (''sortOrder'', ''a=b''), (''pageSize'', ''50'')]
   \<and> (\<exists>url d. search_request (Some ''page=&sortOrder=ascending&pageSize=50&sortOrder=a=b'')
                 = Inr (url, d)
        \<and> map_of d ''page'' = Some [] \<and> map_of d ''pageSize'' = Some ''50''
        \<and> map_of d ''sortOrder'' = Some ''a=b'')"
proof -
  have p: "parse_params (Some ''page=&sortOrder=ascending&pageSize=50&sortOrder=a=b'') =
     Inr [(''page'', []), (''sortOrder'', ''a=b''), (''pageSize'', ''50'')]"
    by code_simp
  from C3_present_values_kept [OF p] show ?thesis
    using p by simp
qed

text \<open>
  C10. When a pair of the parameter string begins with \<^verbatim>\<open>=\<close>, the final dict given to the
  executor has an entry whose key is the empty string; its value is what follows the
  \<^verbatim>\<open>=\<close> in one of these pairs. A pair with a \<^verbatim>\<open>=\<close> and an empty key part is thus kept.
\<close>

theorem C10_empty_key_kept:
  assumes "p \<in> set (py_split CHR ''&'' s)" and "startswith p ''=''"
  shows "\<exists>url d v. search_request (Some s) = Inr (url, d)
     \<and> sent (snd (search_studies (Some s) n)) = sent n @ [(url, Some d)]
     \<and> map_of d [] = Some v \<and> ([], v) \<in> set d
     \<and> CHR ''='' # v \<in> set (py_split CHR ''&'' s)"
proof -
  have e: "CHR ''='' \<notin> set []" by simp
  from assms(2) have p: "CHR ''='' \<in> set p" "pair_key p = []"
    using startswith_key [OF e, of p] by simp_all
  let ?d0 = "fold store_pair (py_split CHR ''&'' s) []"
  have d0: "parse_params (Some s) = Inr ?d0" by (rule parse_params_Some)
  from map_of_fold_present [OF assms(1) p(1)] p(2) obtain v where
    v: "map_of ?d0 [] = Some v" by auto
  from map_of_fold_Some [OF v] have origin: "CHR ''='' # v \<in> set (py_split CHR ''&'' s)"
    by auto
  from search_request_map [OF d0] obtain url d where
    r: "search_request (Some s) = Inr (url, d)"
    and m: "\<And>k. map_of d k =
               (if k = ''collection'' \<or> startswith k ''facet.'' then None
                else case map_of ?d0 k of
                       Some v \<Rightarrow> Some v
                     | None \<Rightarrow> map_of [(''page'', ''1''), (''pageSize'', ''20''),
                                       (''sortOrder'', ''descending'')] k)"
    by blast
  have "map_of d [] = Some v"
    by (simp add: m v facet_literals)
  moreover from this have "([], v) \<in> set d" by (rule map_of_SomeD)
  ultimately show ?thesis
    using r origin by (simp add: search_studies_call make_api_request_sent)
qed

text \<open>C10 at a string with the pairs \<^verbatim>\<open>=v\<close> and \<^verbatim>\<open>=\<close>.\<close>

theorem C10_empty_key_kept_witness:
  "''='' \<in> set (py_split CHR ''&'' ''=v&a=1&badpair&='')
   \<and> startswith ''='' ''=''
   \<and> (\<exists>url d v. search_request (Some ''=v&a=1&badpair&='') = Inr (url, d)
          \<and> map_of d [] = Some v \<and> ([], v) \<in> set d)"
proof -
  have s: "py_split CHR ''&'' ''=v&a=1&badpair&='' = [''=v'', ''a=1'', ''badpair'', ''='']"
    by code_simp
  have m: "''='' \<in> set (py_split CHR ''&'' ''=v&a=1&badpair&='')"
    unfolding s by simp
  have w: "startswith ''='' ''=''" by (simp add: startswith_def)
  from C10_empty_key_kept [OF m w] m w show ?thesis by blast
qed

text \<open>
  C1, as stated, at the string \<^verbatim>\<open>collection=\<close>: its one pair is a \<^verbatim>\<open>collection=X\<close> pair with
  \<open>X\<close> empty, and \<^verbatim>\<open>search_studies\<close> calls the global search URL, which is not
  \<^verbatim>\<open>{base}/{X}/search\<close> for this \<open>X\<close>. The test \<^verbatim>\<open>if collection\<close> of the program takes the
  empty string as no collection.
\<close>

theorem C1_counterexample:
  "py_split CHR ''&'' ''collection='' = [] @ (''collection='' @ []) # []
   \<and> search_request (Some ''collection='') =
       Inr (''https://www.ebi.ac.uk/biostudies/api/v1/search'',
            [(''page'', ''1''), (''pageSize'', ''20''), (''sortOrder'', ''descending'')])
   \<and> ''https://www.ebi.ac.uk/biostudies/api/v1/search'' \<noteq>
       ''https://www.ebi.ac.uk/biostudies/api/v1'' @ ''/'' @ [] @ ''/search''"
proof -
  have "py_split CHR ''&'' ''collection='' = [] @ (''collection='' @ []) # []"
    by code_simp
  moreover have "search_request (Some ''collection='') =
       Inr (''https://www.ebi.ac.uk/biostudies/api/v1/search'',
            [(''page'', ''1''), (''pageSize'', ''20''), (''sortOrder'', ''descending'')])"
    by code_simp
  moreover have "''https://www.ebi.ac.uk/biostudies/api/v1/search'' \<noteq>
       ''https://www.ebi.ac.uk/biostudies/api/v1'' @ ''/'' @ [] @ ''/search''"
    by simp
  ultimately show ?thesis by blast
qed

text \<open>
  C1, amended. For every input the dict given to the executor, which is the dict of the one
  request sent, has no key \<^verbatim>\<open>collection\<close>. When the parameter string has a pair
  \<^verbatim>\<open>collection=X\<close> and no later pair starts with \<^verbatim>\<open>collection=\<close>, the URL is
  \<^verbatim>\<open>{base}/{X}/search\<close> if \<open>X\<close> is not empty, and the global \<^verbatim>\<open>{base}/search\<close> if \<open>X\<close> is
  empty. When no pair starts with \<^verbatim>\<open>collection=\<close>, the URL is the global one.
\<close>

theorem C1_collection_endpoint:
  "(\<exists>url d. search_request params = Inr (url, d) \<and> ''collection'' \<notin> fst ` set d
       \<and> sent (snd (search_studies params n)) = sent n @ [(url, Some d)])
   \<and> (py_split CHR ''&'' s = before @ (''collection='' @ X) # after
        \<and> (\<forall>q \<in> set after. \<not> startswith q ''collection='') \<longrightarrow>
       (\<exists>d. search_request (Some s) =
          Inr (if X \<noteq> [] then ''https://www.ebi.ac.uk/biostudies/api/v1'' @ ''/'' @ X @ ''/search''
               else ''https://www.ebi.ac.uk/biostudies/api/v1/search'', d)))
   \<and> ((\<forall>q \<in> set (py_split CHR ''&'' s). \<not> startswith q ''collection='') \<longrightarrow>
       (\<exists>d. search_request (Some s) =
          Inr (''https://www.ebi.ac.uk/biostudies/api/v1/search'', d)))"
proof -
  let ?d0 = "fold store_pair (py_split CHR ''&'' s) []"
  have d0: "parse_params (Some s) = Inr ?d0" by (rule parse_params_Some)
  have url: "\<exists>d. search_request (Some s) =
           Inr (case map_of ?d0 ''collection'' of
                  None \<Rightarrow> api_v1 @ ''/search''
                | Some c \<Rightarrow> (if c \<noteq> [] then api_v1 @ ''/'' @ c @ ''/search''
                             else api_v1 @ ''/search''), d)"
    using search_request_map [OF d0] by blast
  have a: "\<exists>url d. search_request params = Inr (url, d) \<and> ''collection'' \<notin> fst ` set d
       \<and> sent (snd (search_studies params n)) = sent n @ [(url, Some d)]"
  proof -
    obtain d0 url d where
      r: "search_request params = Inr (url, d)"
      and m: "\<And>k. map_of d k =
               (if k = ''collection'' \<or> startswith k ''facet.'' then None
                else case map_of d0 k of
                       Some v \<Rightarrow> Some v
                     | None \<Rightarrow> map_of [(''page'', ''1''), (''pageSize'', ''20''),
                                       (''sortOrder'', ''descending'')] k)"
      using search_request_total_map [of params] by blast
    have "map_of d ''collection'' = None" by (simp add: m)
    then have "''collection'' \<notin> fst ` set d" by (simp add: not_in_keys)
    with r show ?thesis by (simp add: search_studies_call make_api_request_sent)
  qed
  have b: "\<exists>d. search_request (Some s) =
          Inr (if X \<noteq> [] then ''https://www.ebi.ac.uk/biostudies/api/v1'' @ ''/'' @ X @ ''/search''
               else ''https://www.ebi.ac.uk/biostudies/api/v1/search'', d)"
    if h: "py_split CHR ''&'' s = before @ (''collection='' @ X) # after"
      "\<forall>q \<in> set after. \<not> startswith q ''collection=''"
  proof -
    from h have "\<exists>before after. py_split CHR ''&'' s = before @ (''collection'' @ CHR ''='' # X) # after
        \<and> CHR ''='' \<notin> set ''collection''
        \<and> (\<forall>q \<in> set after. \<not> startswith q (''collection'' @ ''=''))"
      by auto
    then have "map_of ?d0 ''collection'' = Some X"
      by (simp only: map_of_fold_iff)
    with url obtain d where
      "search_request (Some s) =
         Inr (if X \<noteq> [] then api_v1 @ ''/'' @ X @ ''/search'' else api_v1 @ ''/search'', d)"
      by auto
    then have "search_request (Some s) =
          Inr (if X \<noteq> [] then ''https://www.ebi.ac.uk/biostudies/api/v1'' @ ''/'' @ X @ ''/search''
               else ''https://www.ebi.ac.uk/biostudies/api/v1/search'', d)"
      by (cases "X = []") (simp_all add: api_v1_def)
    then show ?thesis by (rule exI)
  qed
  have c: "\<exists>d. search_request (Some s) =
          Inr (''https://www.ebi.ac.uk/biostudies/api/v1/search'', d)"
    if h: "\<forall>q \<in> set (py_split CHR ''&'' s). \<not> startswith q ''collection=''"
  proof -
    from h have "\<forall>q \<in> set (py_split CHR ''&'' s).
        \<not> (CHR ''='' \<in> set q \<and> pair_key q = ''collection'')"
      using startswith_key [OF collection_key] by simp
    then have "map_of ?d0 ''collection'' = None"
      by (simp add: map_of_fold_none)
    with url obtain d where "search_request (Some s) = Inr (api_v1 @ ''/search'', d)"
      by auto
    then have "search_request (Some s) =
          Inr (''https://www.ebi.ac.uk/biostudies/api/v1/search'', d)"
      by (simp add: api_v1_def)
    then show ?thesis by (rule exI)
  qed
  from a b c show ?thesis by blast
qed

text \<open>
  C1 at a string with two collection pairs: the second one, whose value \<^verbatim>\<open>b=c\<close> holds a
  \<^verbatim>\<open>=\<close>, gives the URL.
\<close>

theorem C1_collection_endpoint_witness:
  "py_split CHR ''&'' ''collection=a&facet.x=1&collection=b=c&=v'' =
     [''collection=a'', ''facet.x=1''] @ (''collection='' @ ''b=c'') # [''=v'']
   \<and> \<not> startswith ''=v'' ''collection=''
   \<and> (\<exists>d. search_request (Some ''collection=a&facet.x=1&collection=b=c&=v'') =
          Inr (''https://www.ebi.ac.uk/biostudies/api/v1/b=c/search'', d))"
proof -
  have s: "py_split CHR ''&'' ''collection=a&facet.x=1&collection=b=c&=v'' =
     [''collection=a'', ''facet.x=1''] @ (''collection='' @ ''b=c'') # [''=v'']"
    by code_simp
  have w: "\<not> startswith ''=v'' ''collection=''"
    by (simp add: startswith_def)
  then have "\<forall>q \<in> set [''=v'']. \<not> startswith q ''collection=''"
    by simp
  with s C1_collection_endpoint [where s = "''collection=a&facet.x=1&collection=b=c&=v''"
      and before = "[''collection=a'', ''facet.x=1'']" and X = "''b=c''" and after = "[''=v'']"]
  have "\<exists>d. search_request (Some ''collection=a&facet.x=1&collection=b=c&=v'') =
          Inr (if ''b=c'' \<noteq> [] then ''https://www.ebi.ac.uk/biostudies/api/v1'' @ ''/'' @ ''b=c'' @ ''/search''
               else ''https://www.ebi.ac.uk/biostudies/api/v1/search'', d)"
    by blast
  then have "\<exists>d. search_request (Some ''collection=a&facet.x=1&collection=b=c&=v'') =
          Inr (''https://www.ebi.ac.uk/biostudies/api/v1/b=c/search'', d)"
    by simp
  with s w show ?thesis by blast
qed

text \<open>
  C5. Splitting at \<^verbatim>\<open>&\<close> gives the pieces between the separators: joined by \<^verbatim>\<open>&\<close> they
  are the string again, and none holds a \<^verbatim>\<open>&\<close>. A pair that holds a \<^verbatim>\<open>=\<close> is cut at its
  first \<^verbatim>\<open>=\<close> only: the key has no \<^verbatim>\<open>=\<close>, the value is all that follows. Parsing never
  raises, its dict has distinct keys, and it maps \<open>k\<close> to \<open>v\<close> exactly when \<^verbatim>\<open>k=v\<close> (with no
  \<^verbatim>\<open>=\<close> in \<open>k\<close>) is the last pair that starts with \<^verbatim>\<open>k=\<close>: a pair without \<^verbatim>\<open>=\<close> gives no
  entry, and a later pair replaces an earlier one with the same key. The string
  \<^verbatim>\<open>query=cancer&badpair&page=2\<close> gives the global URL and the dict \<^verbatim>\<open>{query: "cancer",
  page: "2", pageSize: "20", sortOrder: "descending"}\<close>.
\<close>

theorem C5_parsing:
  "py_join ''&'' (py_split CHR ''&'' s) = s
   \<and> (\<forall>p \<in> set (py_split CHR ''&'' s). CHR ''&'' \<notin> set p)
   \<and> (CHR ''='' \<in> set p \<longrightarrow>
        (\<exists>key val. py_split1 CHR ''='' p = [key, val] \<and> p = key @ CHR ''='' # val
           \<and> CHR ''='' \<notin> set key))
   \<and> (\<exists>d. parse_params (Some s) = Inr d \<and> distinct (map fst d)
        \<and> (\<forall>k v. map_of d k = Some v \<longleftrightarrow>
              (\<exists>before after. py_split CHR ''&'' s = before @ (k @ CHR ''='' # v) # after
                 \<and> CHR ''='' \<notin> set k
                 \<and> (\<forall>q \<in> set after. \<not> startswith q (k @ ''='')))))
   \<and> search_request (Some ''query=cancer&badpair&page=2'') =
       Inr (''https://www.ebi.ac.uk/biostudies/api/v1/search'',
            [(''query'', ''cancer''), (''page'', ''2''), (''pageSize'', ''20''),
             (''sortOrder'', ''descending'')])"
proof -
  have j: "py_join ''&'' (py_split CHR ''&'' s) = s"
    by (rule py_join_split)
  have a: "\<forall>p \<in> set (py_split CHR ''&'' s). CHR ''&'' \<notin> set p"
    by (rule py_split_pieces)
  have e: "\<exists>key val. py_split1 CHR ''='' p = [key, val] \<and> p = key @ CHR ''='' # val
           \<and> CHR ''='' \<notin> set key" if "CHR ''='' \<in> set p"
    using py_split1_pair [OF that] pair_decomp [OF that] by blast
  let ?d = "fold store_pair (py_split CHR ''&'' s) []"
  have "parse_params (Some s) = Inr ?d"
    by (rule parse_params_Some)
  moreover have "distinct (map fst ?d)"
    by (rule distinct_fold_store) simp
  moreover have "\<forall>k v. map_of ?d k = Some v \<longleftrightarrow>
              (\<exists>before after. py_split CHR ''&'' s = before @ (k @ CHR ''='' # v) # after
                 \<and> CHR ''='' \<notin> set k
                 \<and> (\<forall>q \<in> set after. \<not> startswith q (k @ ''='')))"
    using map_of_fold_iff by blast
  ultimately have d: "\<exists>d. parse_params (Some s) = Inr d \<and> distinct (map fst d)
        \<and> (\<forall>k v. map_of d k = Some v \<longleftrightarrow>
              (\<exists>before after. py_split CHR ''&'' s = before @ (k @ CHR ''='' # v) # after
                 \<and> CHR ''='' \<notin> set k
                 \<and> (\<forall>q \<in> set after. \<not> startswith q (k @ ''=''))))"
    by blast
  have x: "search_request (Some ''query=cancer&badpair&page=2'') =
       Inr (''https://www.ebi.ac.uk/biostudies/api/v1/search'',
            [(''query'', ''cancer''), (''page'', ''2''), (''pageSize'', ''20''),
             (''sortOrder'', ''descending'')])"
    by code_simp
  from j a e d x show ?thesis by blast
qed

text \<open>
  C5 at the string \<^verbatim>\<open>a=1&b&a=2=3\<close>: the key \<^verbatim>\<open>a\<close> has the value \<^verbatim>\<open>2=3\<close> of the later
  pair, and \<^verbatim>\<open>b\<close> is no key.
\<close>

theorem C5_parsing_witness:
  "py_split CHR ''&'' ''a=1&b&a=2=3'' = [''a=1'', ''b''] @ (''a'' @ CHR ''='' # ''2=3'') # []
   \<and> (\<exists>d. parse_params (Some ''a=1&b&a=2=3'') = Inr d \<and> map_of d ''a'' = Some ''2=3''
          \<and> map_of d ''b'' = None)
   \<and> py_split1 CHR ''='' ''a=2=3'' = [''a'', ''2=3'']"
proof -
  have s: "py_split CHR ''&'' ''a=1&b&a=2=3'' = [''a=1'', ''b''] @ (''a'' @ CHR ''='' # ''2=3'') # []"
    by code_simp
  note c5 = C5_parsing [where s = "''a=1&b&a=2=3''" and p = "''a=2=3''"]
  from c5 obtain d where
    d: "parse_params (Some ''a=1&b&a=2=3'') = Inr d"
    and m: "\<And>k v. map_of d k = Some v \<longleftrightarrow>
              (\<exists>before after. py_split CHR ''&'' ''a=1&b&a=2=3'' = before @ (k @ CHR ''='' # v) # after
                 \<and> CHR ''='' \<notin> set k
                 \<and> (\<forall>q \<in> set after. \<not> startswith q (k @ ''='')))"
    by blast
  have "py_split CHR ''&'' ''a=1&b&a=2=3'' = [''a=1'', ''b''] @ (''a'' @ CHR ''='' # ''2=3'') # []
      \<and> CHR ''='' \<notin> set ''a'' \<and> (\<forall>q \<in> set []. \<not> startswith q (''a'' @ ''=''))"
    using s by simp
  then have a: "map_of d ''a'' = Some ''2=3''"
    unfolding m by blast
  have b: "map_of d ''b'' = None"
  proof (cases "map_of d ''b''")
    case None
    then show ?thesis .
  next
    case (Some v)
    then obtain before after where
      "py_split CHR ''&'' ''a=1&b&a=2=3'' = before @ (''b'' @ CHR ''='' # v) # after"
      unfolding m by blast
    then have "''b'' @ CHR ''='' # v \<in> set [''a=1'', ''b'', ''a=2=3'']"
      using s by simp
    then show ?thesis by simp
  qed
  from c5 have "\<exists>key val. py_split1 CHR ''='' ''a=2=3'' = [key, val]
      \<and> ''a=2=3'' = key @ CHR ''='' # val \<and> CHR ''='' \<notin> set key"
    by simp
  then obtain key val where
    kv: "py_split1 CHR ''='' ''a=2=3'' = [key, val]" "''a=2=3'' = key @ CHR ''='' # val"
        "CHR ''='' \<notin> set key"
    by blast
  from kv(2,3) have "key = ''a'' \<and> val = ''2=3''"
    by (auto simp: Cons_eq_append_conv)
  with kv(1) have "py_split1 CHR ''='' ''a=2=3'' = [''a'', ''2=3'']" by simp
  with s d a b show ?thesis by blast
qed



text \<open>
  C8. No tool raises: \<^verbatim>\<open>search_studies\<close> always returns a text (its parsing loop never
  raises, and the rest is the executor's result), and \<^verbatim>\<open>get_study\<close> and \<^verbatim>\<open>get_study_info\<close>
  are the executor's result. An exception \<open>e\<close> raised by \<^verbatim>\<open>requests.get\<close>, and one raised by
  \<^verbatim>\<open>response.json()\<close> on a 200 response, both give the text
  \<^verbatim>\<open>Error: An exception occurred during request: \<close> followed by \<^verbatim>\<open>str(e)\<close>.
\<close>

theorem C8_failures_become_text:
  "(\<exists>text. fst (search_studies ps n) = Inr text)
   \<and> (\<exists>u d. search_request ps = Inr (u, d)
         \<and> fst (search_studies ps n) = Inr (fst (make_api_request u (Some d) n)))
   \<and> get_study a n =
       make_api_request (''https://www.ebi.ac.uk/biostudies/api/v1/studies/'' @ a) None n
   \<and> get_study_info a n =
       make_api_request (''https://www.ebi.ac.uk/biostudies/api/v1/studies/'' @ a @ ''/info'') None n
   \<and> (respond n (url, params) = Inl e \<longrightarrow>
        fst (make_api_request url params n) =
          ''Error: An exception occurred during request: '' @ str e)
   \<and> (respond n (url, params) = Inr r \<and> status_code r = 200 \<and> json r = Inl e \<longrightarrow>
        fst (make_api_request url params n) =
          ''Error: An exception occurred during request: '' @ str e)"
proof -
  obtain u d where r: "search_request ps = Inr (u, d)"
    using search_request_total_map [of ps] by blast
  then have c: "fst (search_studies ps n) = Inr (fst (make_api_request u (Some d) n))"
    by (rule search_studies_call)
  have x: "fst (make_api_request url params n) =
          ''Error: An exception occurred during request: '' @ str e"
    if "respond n (url, params) = Inl e"
    using that by (rule make_api_request_raised)
  have y: "fst (make_api_request url params n) =
          ''Error: An exception occurred during request: '' @ str e"
    if "respond n (url, params) = Inr r" "status_code r = 200" "json r = Inl e"
    using that by (rule make_api_request_bad_json)
  from r c x y get_study_eq [of a n] get_study_info_eq [of a n] show ?thesis by blast
qed

text \<open>
  C8 at a remote side that refuses the connection, and at one that answers 200 with a body
  that is no JSON.
\<close>

theorem C8_failures_become_text_witness:
  "fst (get_study ''S-X''
      \<lparr>respond = (\<lambda>q. Inl (Exception ''ConnectionError'' ''Connection refused'')), sent = [], encoder_depth = 900\<rparr>)
   = ''Error: An exception occurred during request: Connection refused''
   \<and> fst (search_studies (Some ''query=x&badpair'')
      \<lparr>respond = (\<lambda>q. Inr \<lparr>status_code = 200, body_text = ''<html>'',
                              json = Inl (Exception ''JSONDecodeError'' ''Expecting value'')\<rparr>),
       sent = [], encoder_depth = 900\<rparr>)
   = Inr ''Error: An exception occurred during request: Expecting value''"
proof -
  let ?e = "Exception ''ConnectionError'' ''Connection refused''"
  let ?n = "\<lparr>respond = (\<lambda>q. Inl ?e), sent = [], encoder_depth = 900\<rparr>"
  let ?j = "Exception ''JSONDecodeError'' ''Expecting value''"
  let ?r = "\<lparr>status_code = 200, body_text = ''<html>'', json = Inl ?j\<rparr>"
  let ?m = "\<lparr>respond = (\<lambda>q. Inr ?r), sent = [], encoder_depth = 900\<rparr>"
  have "fst (get_study ''S-X'' ?n) = ''Error: An exception occurred during request: '' @ str ?e"
    using C8_failures_become_text [where n = ?n and a = "''S-X''" and e = ?e
        and url = "''https://www.ebi.ac.uk/biostudies/api/v1/studies/'' @ ''S-X''"
        and params = None]
    by simp
  then have g: "fst (get_study ''S-X'' ?n) =
      ''Error: An exception occurred during request: Connection refused''"
    by simp
  obtain u d where
    c: "fst (search_studies (Some ''query=x&badpair'') ?m) =
          Inr (fst (make_api_request u (Some d) ?m))"
    using C8_failures_become_text [where n = ?m and ps = "Some ''query=x&badpair''"]
    by blast
  have "fst (make_api_request u (Some d) ?m) =
      ''Error: An exception occurred during request: '' @ str ?j"
    using C8_failures_become_text [where n = ?m and r = ?r and e = ?j and url = u
        and params = "Some d"]
    by simp
  with c have "fst (search_studies (Some ''query=x&badpair'') ?m) =
      Inr ''Error: An exception occurred during request: Expecting value''"
    by simp
  with g show ?thesis by blast
qed

end
